theory Spec2Isabelle
  imports Complex_Main "HOL-Library.Char_ord" "HOL-Library.List_Lexorder" "HOL-Library.Multiset"
begin

section \<open>Data model (attendance/models.py)\<close>

text \<open>
  Dates and timestamps. The views only ever take the calendar date of a timestamp
  (\<^verbatim>\<open>timezone.now().date()\<close>, the \<^verbatim>\<open>date_time__date\<close> lookup) and compare dates for
  equality; settings.py has \<^verbatim>\<open>USE_TZ = True\<close> with \<^verbatim>\<open>TIME_ZONE = "UTC"\<close>, so both
  take the date in the same zone. A timestamp is its calendar date and the time of day.
\<close>

datatype date = Date (year: nat) (month: nat) (day: nat)

datatype datetime = DateTime (date: date) (time_of_day: nat)

text \<open>
  \<^verbatim>\<open>class Student\<close>: the primary key Django adds, and the four declared fields.
  Python strings are modelled as \<^typ>\<open>string\<close>.
\<close>

record student =
  student_pk :: nat
  student_name :: string
  roll_number :: string
  course_name :: string
  created_at :: datetime

text \<open>\<^verbatim>\<open>class Absence\<close>: primary key, the foreign key column and the timestamp.\<close>

record absence =
  absence_pk :: nat
  student_id :: nat
  date_time :: datetime

text \<open>
  The database: the two tables as row lists in insertion order, and the two
  primary-key sequences (a key is never handed out twice).
\<close>

record db =
  student_table :: "student list"
  absence_table :: "absence list"
  student_seq :: nat
  absence_seq :: nat

text \<open>Exceptions of the views and of the ORM calls they make, as values.\<close>

datatype exn =
    Http404
  | DoesNotExist
  | MultipleObjectsReturned
  | NegativeIndexing
  | ValueError
  | UnboundLocalError
  | ZeroDivisionError
  | DataError
  | ReaderError

text \<open>A write statement sent to the Absence table.\<close>

datatype db_write =
    InsertAbsence absence
  | DeleteAbsences nat date

section \<open>ORM primitives used by the views\<close>

text \<open>
  \<^verbatim>\<open>QuerySet.get\<close>: the single matching row, \<^verbatim>\<open>DoesNotExist\<close> for none,
  \<^verbatim>\<open>MultipleObjectsReturned\<close> for more than one.
\<close>

fun queryset_get :: "'a list \<Rightarrow> exn + 'a" where
  "queryset_get [] = Inl DoesNotExist"
| "queryset_get [x] = Inr x"
| "queryset_get (x # y # zs) = Inl MultipleObjectsReturned"

text \<open>\<^verbatim>\<open>get_object_or_404(Student, id=student_id)\<close>.\<close>

definition get_object_or_404 :: "db \<Rightarrow> nat \<Rightarrow> exn + student" where
  "get_object_or_404 d sid =
     (case queryset_get (filter (\<lambda>s. student_pk s = sid) (student_table d)) of
        Inl DoesNotExist \<Rightarrow> Inl Http404
      | Inl e \<Rightarrow> Inl e
      | Inr s \<Rightarrow> Inr s)"

text \<open>\<^verbatim>\<open>Absence.objects.filter(student=student, date_time__date=today)\<close>.\<close>

definition absences_on :: "db \<Rightarrow> nat \<Rightarrow> date \<Rightarrow> absence list" where
  "absences_on d sid today =
     filter (\<lambda>a. student_id a = sid \<and> date (date_time a) = today) (absence_table d)"

text \<open>\<^verbatim>\<open>Absence.objects.filter(date_time__date=today)\<close>.\<close>

definition absences_dated :: "db \<Rightarrow> date \<Rightarrow> absence list" where
  "absences_dated d today = filter (\<lambda>a. date (date_time a) = today) (absence_table d)"

text \<open>
  \<^verbatim>\<open>Absence.objects.get_or_create(student=student, date_time__date=today,
  defaults={'date_time': now})\<close>: \<^verbatim>\<open>get\<close> with the lookup; on \<^verbatim>\<open>DoesNotExist\<close> a row
  is created from the non-lookup arguments and the defaults, that is the student and
  \<^verbatim>\<open>date_time = now\<close>; any other exception of \<^verbatim>\<open>get\<close> propagates. The result is the
  row, the \<^verbatim>\<open>created\<close> flag, the writes sent and the database afterwards.
\<close>

definition absence_get_or_create ::
  "student \<Rightarrow> date \<Rightarrow> datetime \<Rightarrow> db \<Rightarrow> exn + (absence \<times> bool) \<times> db_write list \<times> db" where
  "absence_get_or_create s today now d =
     (case queryset_get (absences_on d (student_pk s) today) of
        Inr a \<Rightarrow> Inr ((a, False), [], d)
      | Inl DoesNotExist \<Rightarrow>
          (let a = \<lparr>absence_pk = Suc (absence_seq d), student_id = student_pk s, date_time = now\<rparr>
           in Inr ((a, True), [InsertAbsence a],
                   d\<lparr>absence_table := absence_table d @ [a], absence_seq := Suc (absence_seq d)\<rparr>))
      | Inl e \<Rightarrow> Inl e)"

text \<open>
  \<^verbatim>\<open>Absence.objects.filter(student=student, date_time__date=today).delete()\<close>: one
  DELETE statement that removes every matching row (Absence has no dependent model, so
  the queryset is deleted directly).
\<close>

definition absence_delete :: "student \<Rightarrow> date \<Rightarrow> db \<Rightarrow> db_write list \<times> db" where
  "absence_delete s today d =
     ([DeleteAbsences (student_pk s) today],
      d\<lparr>absence_table :=
           filter (\<lambda>a. \<not> (student_id a = student_pk s \<and> date (date_time a) = today))
             (absence_table d)\<rparr>)"

section \<open>mark_attendance (attendance/views.py)\<close>

datatype http_method = GET | POST

text \<open>
  The POST parameters after the view has read them: \<^verbatim>\<open>student_id\<close>, \<^verbatim>\<open>action\<close>
  (\<^verbatim>\<open>None\<close> when the parameter is missing) and \<^verbatim>\<open>int(current_index)\<close>.
\<close>

record mark_post =
  post_student_id :: nat
  post_action :: "string option"
  post_current_index :: int

datatype mark_response =
    Redirect_take_attendance_index int
  | Redirect_take_attendance

text \<open>
  The view reads the clock twice: \<^verbatim>\<open>today = timezone.now().date()\<close> (\<open>t1\<close>) and, in
  the absent branch, \<^verbatim>\<open>timezone.now()\<close> for the default timestamp (\<open>t2\<close>). An
  exception leaves the database as it was: \<^verbatim>\<open>get\<close> raises before anything is written.
\<close>

definition mark_attendance ::
  "http_method \<Rightarrow> mark_post \<Rightarrow> datetime \<Rightarrow> datetime \<Rightarrow> db \<Rightarrow> (exn + mark_response) \<times> db_write list \<times> db" where
  "mark_attendance m p t1 t2 d =
     (if m = POST then
        (case get_object_or_404 d (post_student_id p) of
           Inl e \<Rightarrow> (Inl e, [], d)
         | Inr s \<Rightarrow>
             (let today = date t1 in
              if post_action p = Some ''absent'' then
                (case absence_get_or_create s today t2 d of
                   Inl e \<Rightarrow> (Inl e, [], d)
                 | Inr (_, ws, d') \<Rightarrow>
                     (Inr (Redirect_take_attendance_index (post_current_index p + 1)), ws, d'))
              else
                (case absence_delete s today d of
                   (ws, d') \<Rightarrow>
                     (Inr (Redirect_take_attendance_index (post_current_index p + 1)), ws, d'))))
      else (Inr Redirect_take_attendance, [], d))"

text \<open>The database a call leaves behind, and the writes it sent.\<close>

definition db_after :: "(exn + 'r) \<times> db_write list \<times> db \<Rightarrow> db" where
  "db_after r = snd (snd r)"

definition writes_of :: "(exn + 'r) \<times> db_write list \<times> db \<Rightarrow> db_write list" where
  "writes_of r = fst (snd r)"

text \<open>The two decisions of the walker as POST parameters.\<close>

definition mark_absent :: "nat \<Rightarrow> int \<Rightarrow> mark_post" where
  "mark_absent sid pos = \<lparr>post_student_id = sid, post_action = Some ''absent'', post_current_index = pos\<rparr>"

definition mark_present :: "nat \<Rightarrow> int \<Rightarrow> mark_post" where
  "mark_present sid pos = \<lparr>post_student_id = sid, post_action = Some ''present'', post_current_index = pos\<rparr>"

text \<open>
  A write is scoped to (student, day): it inserts a row of that student dated that day,
  or deletes that student's rows of that day.
\<close>

fun write_scoped :: "nat \<Rightarrow> date \<Rightarrow> db_write \<Rightarrow> bool" where
  "write_scoped sid today (InsertAbsence a) = (student_id a = sid \<and> date (date_time a) = today)"
| "write_scoped sid today (DeleteAbsences sid' day') = (sid' = sid \<and> day' = today)"

section \<open>import_students (attendance/views.py)\<close>

text \<open>
  \<^verbatim>\<open>str.strip()\<close> removes leading and trailing whitespace; \<open>is_space\<close> lists the
  characters below 256 that Python counts as whitespace.
\<close>

definition is_space :: "char \<Rightarrow> bool" where
  "is_space c = (c \<in> set [CHR 0x09, CHR 0x0A, CHR 0x0B, CHR 0x0C, CHR 0x0D,
                            CHR 0x1C, CHR 0x1D, CHR 0x1E, CHR 0x1F, CHR 0x20, CHR 0x85, CHR 0xA0])"

definition strip :: "string \<Rightarrow> string" where
  "strip s = rev (dropWhile is_space (rev (dropWhile is_space s)))"

text \<open>
  \<^verbatim>\<open>excel_file.name.split('.')[-1].lower()\<close>: the text after the last dot (the whole
  name when it has none), in lower case.
\<close>

definition lower_char :: "char \<Rightarrow> char" where
  "lower_char c =
     (case map_of (zip ''ABCDEFGHIJKLMNOPQRSTUVWXYZ'' ''abcdefghijklmnopqrstuvwxyz'') c of
        Some l \<Rightarrow> l
      | None \<Rightarrow> c)"

definition file_extension :: "string \<Rightarrow> string" where
  "file_extension name = map lower_char (rev (takeWhile (\<lambda>c. c \<noteq> CHR ''.'') (rev name)))"

text \<open>
  What pandas hands to the view: the column names, and for each row the text
  \<^verbatim>\<open>str(row[col])\<close> of a column. Reading the upload is outside the view:
  \<open>as_csv\<close> and \<open>as_excel\<close> are what \<^verbatim>\<open>pd.read_csv\<close> and \<^verbatim>\<open>pd.read_excel\<close> make
  of the file, an exception included.
\<close>

record dataframe =
  df_columns :: "string list"
  df_rows :: "(string \<Rightarrow> string) list"

record upload =
  file_name :: string
  as_csv :: "exn + dataframe"
  as_excel :: "exn + dataframe"

text \<open>The reader is chosen by the extension; \<open>None\<close> is an unsupported extension.\<close>

definition read_upload :: "upload \<Rightarrow> (exn + dataframe) option" where
  "read_upload f =
     (let ext = file_extension (file_name f) in
      if ext = ''csv'' then Some (as_csv f)
      else if ext \<in> set [''xlsx'', ''xls''] then Some (as_excel f)
      else None)"

definition required_columns :: "string list" where
  "required_columns = [''Student Name'', ''Roll Number'', ''Course Name'']"

text \<open>
  \<^verbatim>\<open>Student.objects.get_or_create(roll_number=..., defaults={...})\<close>. The lookup is by
  roll number alone. \<open>strict\<close> says whether the database enforces the declared
  \<^verbatim>\<open>max_length\<close> of the three text columns (PostgreSQL does, SQLite does not): a
  strict database rejects the insert of an over-long value.
\<close>

definition student_get_or_create ::
  "bool \<Rightarrow> string \<Rightarrow> string \<Rightarrow> string \<Rightarrow> datetime \<Rightarrow> db \<Rightarrow> exn + (student \<times> bool) \<times> db" where
  "student_get_or_create strict roll name course now d =
     (case queryset_get (filter (\<lambda>s. roll_number s = roll) (student_table d)) of
        Inr s \<Rightarrow> Inr ((s, False), d)
      | Inl DoesNotExist \<Rightarrow>
          (if strict \<and> (length name > 100 \<or> length roll > 20 \<or> length course > 100)
           then Inl DataError
           else
             (let s = \<lparr>student_pk = Suc (student_seq d), student_name = name, roll_number = roll,
                        course_name = course, created_at = now\<rparr>
              in Inr ((s, True),
                      d\<lparr>student_table := student_table d @ [s], student_seq := Suc (student_seq d)\<rparr>)))
      | Inl e \<Rightarrow> Inl e)"

text \<open>The body of the loop: the three cells, stripped.\<close>

definition import_row :: "bool \<Rightarrow> datetime \<Rightarrow> (string \<Rightarrow> string) \<Rightarrow> db \<Rightarrow> exn + (student \<times> bool) \<times> db" where
  "import_row strict now row d =
     student_get_or_create strict (strip (row ''Roll Number'')) (strip (row ''Student Name''))
       (strip (row ''Course Name'')) now d"

text \<open>
  The loop over \<^verbatim>\<open>df.iterrows()\<close> with the counter \<^verbatim>\<open>students_created\<close>. An exception
  ends it; the rows created before stay. \<open>clock i\<close> is the time at which row \<open>i\<close> is
  saved (\<^verbatim>\<open>auto_now_add\<close>).
\<close>

fun import_rows ::
  "bool \<Rightarrow> (nat \<Rightarrow> datetime) \<Rightarrow> nat \<Rightarrow> (string \<Rightarrow> string) list \<Rightarrow> nat \<Rightarrow> db \<Rightarrow> (exn + nat) \<times> db" where
  "import_rows strict clock i [] students_created d = (Inr students_created, d)"
| "import_rows strict clock i (row # rest) students_created d =
     (case import_row strict (clock i) row d of
        Inl e \<Rightarrow> (Inl e, d)
      | Inr ((s, created), d') \<Rightarrow>
          import_rows strict clock (Suc i) rest
            (if created then Suc students_created else students_created) d')"

text \<open>
  The three error messages of the view, each followed by a redirect to the import form:
  unsupported format, missing columns, and the catch-all \<^verbatim>\<open>except Exception\<close>.
\<close>

datatype import_error = Unsupported_format | Missing_columns | Import_failed exn

datatype import_response =
    Render_import_form
  | Redirect_import_students import_error
  | Redirect_attendance_list nat

text \<open>
  \<^verbatim>\<open>import_students\<close>. \<^verbatim>\<open>request.FILES.get('excel_file')\<close> is \<open>excel_file\<close>; an uploaded
  file is truthy when its name is not empty.
\<close>

definition import_students ::
  "bool \<Rightarrow> (nat \<Rightarrow> datetime) \<Rightarrow> http_method \<Rightarrow> upload option \<Rightarrow> db \<Rightarrow> import_response \<times> db" where
  "import_students strict clock m excel_file d =
     (case excel_file of
        Some f \<Rightarrow>
          (if m = POST \<and> file_name f \<noteq> [] then
             (case read_upload f of
                None \<Rightarrow> (Redirect_import_students Unsupported_format, d)
              | Some (Inl e) \<Rightarrow> (Redirect_import_students (Import_failed e), d)
              | Some (Inr df) \<Rightarrow>
                  (if \<not> list_all (\<lambda>col. col \<in> set (df_columns df)) required_columns
                   then (Redirect_import_students Missing_columns, d)
                   else
                     (case import_rows strict clock 0 (df_rows df) 0 d of
                        (Inl e, d') \<Rightarrow> (Redirect_import_students (Import_failed e), d')
                      | (Inr n, d') \<Rightarrow> (Redirect_attendance_list n, d'))))
           else (Render_import_form, d))
      | None \<Rightarrow> (Render_import_form, d))"

text \<open>The roll number of a row as the loop uses it, and the roll numbers on the roster.\<close>

definition roll_key :: "(string \<Rightarrow> string) \<Rightarrow> string" where
  "roll_key row = strip (row ''Roll Number'')"

definition rolls :: "db \<Rightarrow> string set" where
  "rolls d = set (map roll_number (student_table d))"

section \<open>take_attendance (attendance/views.py)\<close>

text \<open>
  \<^verbatim>\<open>Student.objects.all().order_by('roll_number')\<close>: the roster in ascending order of the
  roll number. Strings are compared character by character (the order of a binary
  collation). Roll numbers are unique in the table (\<^verbatim>\<open>unique=True\<close>); rows with
  equal keys would keep their table order.
\<close>

definition students_by_roll :: "db \<Rightarrow> student list" where
  "students_by_roll d = sort_key roll_number (student_table d)"

text \<open>
  The template context of \<^verbatim>\<open>take_attendance\<close>. The \<^verbatim>\<open>progress\<close> entry, a floating-point
  percentage computed from \<^verbatim>\<open>current_index\<close> and \<^verbatim>\<open>total_students\<close>, is left out.
\<close>

record take_context =
  current_student :: student
  current_index :: int
  total_students :: nat
  is_absent_today :: bool

datatype take_response =
    Redirect_attendance_complete
  | Render_take_attendance take_context

text \<open>
  \<^verbatim>\<open>current_index = int(request.GET.get('index', 0))\<close> is the argument \<open>index\<close>. An
  index at or beyond the roster size redirects to the completion page. Indexing a
  queryset with a negative number raises (\<^verbatim>\<open>Negative indexing is not supported.\<close>);
  otherwise \<^verbatim>\<open>students[current_index]\<close> is the row at that position.
\<close>

definition take_attendance :: "int \<Rightarrow> datetime \<Rightarrow> db \<Rightarrow> exn + take_response" where
  "take_attendance index now d =
     (let students = students_by_roll d in
      if index \<ge> int (length students) then Inr Redirect_attendance_complete
      else if index < 0 then Inl NegativeIndexing
      else
        (let student = students ! nat index;
             today = date now;
             absent = (absences_on d (student_pk student) today \<noteq> [])
         in Inr (Render_take_attendance
              \<lparr>current_student = student, current_index = index,
               total_students = length students, is_absent_today = absent\<rparr>)))"

section \<open>Absentee reports (attendance/views.py)\<close>

text \<open>The student an Absence row points to (\<^verbatim>\<open>select_related('student')\<close>).\<close>

definition student_of :: "db \<Rightarrow> absence \<Rightarrow> student option" where
  "student_of d a = find (\<lambda>s. student_pk s = student_id a) (student_table d)"

text \<open>
  \<^verbatim>\<open>Absence.objects.filter(date_time__date=d).select_related('student')
  .order_by('student__roll_number')\<close>: the Absence rows of the day joined with their
  students, in ascending order of the student's roll number.
\<close>

definition absentees_by_roll :: "db \<Rightarrow> date \<Rightarrow> (absence \<times> student) list" where
  "absentees_by_roll d on_date =
     sort_key (\<lambda>r. roll_number (snd r))
       (List.map_filter (\<lambda>a. map_option (Pair a) (student_of d a)) (absences_dated d on_date))"

text \<open>
  The percentage is a Python number: the integer \<open>0\<close> for an empty roster, a float
  otherwise. Floating-point arithmetic is not interpreted: true division, multiplication
  by an integer and rounding to a number of digits are parameters. Division by zero
  raises, and \<^verbatim>\<open>round\<close> of an integer to a non-negative number of digits is that integer.
\<close>

datatype 'f pynum = PyInt int | PyFloat 'f

record 'f float_ops =
  truediv :: "int \<Rightarrow> int \<Rightarrow> 'f"
  fmul :: "'f \<Rightarrow> int \<Rightarrow> 'f"
  fround :: "'f \<Rightarrow> int \<Rightarrow> 'f"

definition py_truediv :: "'f float_ops \<Rightarrow> int \<Rightarrow> int \<Rightarrow> exn + 'f" where
  "py_truediv ops a b = (if b = 0 then Inl ZeroDivisionError else Inr (truediv ops a b))"

definition py_round :: "'f float_ops \<Rightarrow> 'f pynum \<Rightarrow> int \<Rightarrow> 'f pynum" where
  "py_round ops v ndigits = (case v of PyInt i \<Rightarrow> PyInt i | PyFloat x \<Rightarrow> PyFloat (fround ops x ndigits))"

text \<open>The template context of \<^verbatim>\<open>print_absentees\<close>; \<open>report_date\<close> is the entry \<^verbatim>\<open>date\<close>.\<close>

record 'f report_context =
  absent_students :: "(absence \<times> student) list"
  report_date :: date
  total_absent :: int
  total_present :: int
  attendance_percentage :: "'f pynum"

text \<open>
  \<^verbatim>\<open>print_absentees\<close>. \<^verbatim>\<open>absent_students.count()\<close> counts the Absence rows of the day,
  \<^verbatim>\<open>Student.objects.count()\<close> the roster.
\<close>

definition print_absentees :: "'f float_ops \<Rightarrow> datetime \<Rightarrow> db \<Rightarrow> exn + 'f report_context" where
  "print_absentees ops now d =
     (let today = date now;
          rows = absentees_by_roll d today;
          absent_count = int (length (absences_dated d today));
          student_count = int (length (student_table d));
          present_count = student_count - absent_count
      in case (if student_count > 0
               then (case py_truediv ops present_count student_count of
                       Inl e \<Rightarrow> Inl e
                     | Inr q \<Rightarrow> Inr (PyFloat (fmul ops q 100)))
               else Inr (PyInt 0)) of
           Inl e \<Rightarrow> Inl e
         | Inr v \<Rightarrow>
             Inr \<lparr>absent_students = rows, report_date = today,
                  total_absent = absent_count, total_present = present_count,
                  attendance_percentage = py_round ops v 2\<rparr>)"

text \<open>The template context of \<^verbatim>\<open>absentees_list\<close>.\<close>

record list_context =
  list_absent_students :: "(absence \<times> student) list"
  filter_date :: date
  list_total_absent :: nat

text \<open>
  \<^verbatim>\<open>absentees_list\<close>. \<open>strptime\<close> stands for
  \<^verbatim>\<open>datetime.strptime(_, '%Y-%m-%d').date()\<close>, with \<open>None\<close> for \<^verbatim>\<open>ValueError\<close>;
  \<open>date_filter\<close> is \<^verbatim>\<open>request.GET.get('date')\<close>, and \<^verbatim>\<open>if date_filter:\<close> holds for a
  non-empty string. The three branches bind the local variables: the \<^verbatim>\<open>except\<close>
  branch binds \<^verbatim>\<open>absent_students\<close> only, so \<^verbatim>\<open>filter_date\<close> is unbound there (the third
  component is \<open>None\<close>), and reading it for the template context raises
  \<^verbatim>\<open>UnboundLocalError\<close>.
\<close>

definition absentees_list ::
  "(string \<Rightarrow> date option) \<Rightarrow> string option \<Rightarrow> datetime \<Rightarrow> db \<Rightarrow> exn + list_context" where
  "absentees_list strptime date_filter now d =
     (case (case date_filter of
              Some (c # cs) \<Rightarrow>
                (case strptime (c # cs) of
                   Some fd \<Rightarrow> (absentees_by_roll d fd, length (absences_dated d fd), Some fd)
                 | None \<Rightarrow> ([], 0, None))
            | _ \<Rightarrow>
                (let today = date now
                 in (absentees_by_roll d today, length (absences_dated d today), Some today))) of
        (rows, n, None) \<Rightarrow> Inl UnboundLocalError
      | (rows, n, Some fd) \<Rightarrow>
          Inr \<lparr>list_absent_students = rows, filter_date = fd, list_total_absent = n\<rparr>)"

text \<open>
  A model of \<^verbatim>\<open>datetime.strptime(s, '%Y-%m-%d').date()\<close> for evaluating examples: four
  digits, a month matching \<^verbatim>\<open>1[0-2]|0[1-9]|[1-9]\<close>, a day matching
  \<^verbatim>\<open>3[01]|[12]\d|0[1-9]|[1-9]| [1-9]\<close>, nothing left over, and a date that exists.
\<close>

definition is_digit :: "char \<Rightarrow> bool" where
  "is_digit c = (c \<in> set ''0123456789'')"

definition digit_val :: "char \<Rightarrow> nat" where
  "digit_val c = of_char c - 48"

definition is_leap :: "nat \<Rightarrow> bool" where
  "is_leap y = (y mod 4 = 0 \<and> (y mod 100 \<noteq> 0 \<or> y mod 400 = 0))"

definition days_in_month :: "nat \<Rightarrow> nat \<Rightarrow> nat" where
  "days_in_month y m =
     (if m = 2 then (if is_leap y then 29 else 28)
      else if m \<in> {4, 6, 9, 11} then 30 else 31)"

fun match_month :: "string \<Rightarrow> (nat \<times> string) option" where
  "match_month (a # b # r) =
     (if a = CHR ''1'' \<and> b \<in> set ''012'' then Some (10 + digit_val b, r)
      else if a = CHR ''0'' \<and> b \<in> set ''123456789'' then Some (digit_val b, r)
      else if a \<in> set ''123456789'' then Some (digit_val a, b # r)
      else None)"
| "match_month [a] = (if a \<in> set ''123456789'' then Some (digit_val a, []) else None)"
| "match_month [] = None"

fun match_day :: "string \<Rightarrow> (nat \<times> string) option" where
  "match_day (a # b # r) =
     (if a = CHR ''3'' \<and> b \<in> set ''01'' then Some (30 + digit_val b, r)
      else if a \<in> set ''12'' \<and> is_digit b then Some (10 * digit_val a + digit_val b, r)
      else if a = CHR ''0'' \<and> b \<in> set ''123456789'' then Some (digit_val b, r)
      else if a \<in> set ''123456789'' then Some (digit_val a, b # r)
      else if a = CHR '' '' \<and> b \<in> set ''123456789'' then Some (digit_val b, r)
      else None)"
| "match_day [a] = (if a \<in> set ''123456789'' then Some (digit_val a, []) else None)"
| "match_day [] = None"

fun strptime_ymd :: "string \<Rightarrow> date option" where
  "strptime_ymd (y1 # y2 # y3 # y4 # dash1 # r) =
     (if is_digit y1 \<and> is_digit y2 \<and> is_digit y3 \<and> is_digit y4 \<and> dash1 = CHR ''-'' then
        (case match_month r of
           Some (m, dash2 # r') \<Rightarrow>
             (if dash2 = CHR ''-'' then
                (case match_day r' of
                   Some (dd, []) \<Rightarrow>
                     (let y = 1000 * digit_val y1 + 100 * digit_val y2 + 10 * digit_val y3 + digit_val y4
                      in if 1 \<le> y \<and> dd \<le> days_in_month y m then Some (Date y m dd) else None)
                 | _ \<Rightarrow> None)
              else None)
         | _ \<Rightarrow> None)
      else None)"
| "strptime_ymd _ = None"

section \<open>Example data\<close>

text \<open>
  The scenario of the specification: a roster with student A (roll "1") and student B
  (roll "2"), the same roster with A already marked absent, and a state in which A has
  two Absence rows on one day.
\<close>

definition day1 :: date where "day1 = Date 2024 3 4"

definition morning :: datetime where "morning = DateTime day1 32400"

definition noon :: datetime where "noon = DateTime day1 43200"

definition student_A :: student where
  "student_A = \<lparr>student_pk = 1, student_name = ''A'', roll_number = ''1'', course_name = ''CS'',
     created_at = DateTime (Date 2024 3 1) 0\<rparr>"

definition student_B :: student where
  "student_B = \<lparr>student_pk = 2, student_name = ''B'', roll_number = ''2'', course_name = ''CS'',
     created_at = DateTime (Date 2024 3 1) 0\<rparr>"

definition db_roster :: db where
  "db_roster = \<lparr>student_table = [student_A, student_B], absence_table = [],
     student_seq = 2, absence_seq = 0\<rparr>"

definition db_marked :: db where
  "db_marked = db_roster\<lparr>absence_table := [\<lparr>absence_pk = 1, student_id = 1, date_time = morning\<rparr>],
     absence_seq := 1\<rparr>"

definition db_duplicated :: db where
  "db_duplicated = db_roster\<lparr>absence_table :=
       [\<lparr>absence_pk = 1, student_id = 1, date_time = morning\<rparr>,
        \<lparr>absence_pk = 2, student_id = 1, date_time = noon\<rparr>],
     absence_seq := 2\<rparr>"

text \<open>
  Clock readings on either side of midnight, and a database that also holds an Absence
  row of the day before.
\<close>

definition before_midnight :: datetime where "before_midnight = DateTime day1 86399"

definition after_midnight :: datetime where "after_midnight = DateTime (Date 2024 3 5) 1"

definition yesterday_noon :: datetime where "yesterday_noon = DateTime (Date 2024 3 3) 43200"

definition db_two_days :: db where
  "db_two_days = db_roster\<lparr>absence_table :=
       [\<lparr>absence_pk = 1, student_id = 2, date_time = yesterday_noon\<rparr>,
        \<lparr>absence_pk = 2, student_id = 1, date_time = morning\<rparr>],
     absence_seq := 2\<rparr>"

text \<open>
  An instance of the float operations in exact rational arithmetic, rounding to the
  nearest multiple of \<open>10\<^sup>-\<^sup>n\<close>, and the empty database.
\<close>

definition exact_ops :: "rat float_ops" where
  "exact_ops = \<lparr>truediv = (\<lambda>a b. of_int a / of_int b), fmul = (\<lambda>x k. x * of_int k),
     fround = (\<lambda>x n. of_int \<lfloor>x * 10 ^ nat n + 1 / 2\<rfloor> / 10 ^ nat n)\<rparr>"

definition db_empty :: db where
  "db_empty = \<lparr>student_table = [], absence_table = [], student_seq = 0, absence_seq = 0\<rparr>"

text \<open>
  Uploads: the scenario file with the row ("Jane", "R1", "CS") twice, here with blanks
  around the roll number; the roster after importing it; a file whose only row carries
  the roll number of student A; and a sheet without the course column.
\<close>

definition jane_row :: "string \<Rightarrow> string" where
  "jane_row col = (if col = ''Student Name'' then ''Jane'' else if col = ''Roll Number'' then '' R1 ''
                   else if col = ''Course Name'' then ''CS'' else [])"

definition jane_file :: upload where
  "jane_file = \<lparr>file_name = ''roster.CSV'',
     as_csv = Inr \<lparr>df_columns = [''Student Name'', ''Roll Number'', ''Course Name''], df_rows = [jane_row, jane_row]\<rparr>,
     as_excel = Inl ReaderError\<rparr>"

definition db_jane :: db where
  "db_jane = db_roster\<lparr>student_table := [student_A, student_B,
       \<lparr>student_pk = 3, student_name = ''Jane'', roll_number = ''R1'', course_name = ''CS'',
        created_at = noon\<rparr>],
     student_seq := 3\<rparr>"

definition other_row :: "string \<Rightarrow> string" where
  "other_row col = (if col = ''Student Name'' then ''Someone'' else if col = ''Roll Number'' then ''1''
                    else if col = ''Course Name'' then ''Maths'' else [])"

definition other_file :: upload where
  "other_file = \<lparr>file_name = ''again.csv'',
     as_csv = Inr \<lparr>df_columns = [''Student Name'', ''Roll Number'', ''Course Name''], df_rows = [other_row]\<rparr>,
     as_excel = Inl ReaderError\<rparr>"

definition short_file :: upload where
  "short_file = \<lparr>file_name = ''short.xlsx'', as_csv = Inl ReaderError,
     as_excel = Inr \<lparr>df_columns = [''Student Name'', ''Roll Number''], df_rows = [jane_row]\<rparr>\<rparr>"

section \<open>Properties of the ORM primitives and of mark_attendance\<close>

lemma queryset_get_Inr: "queryset_get xs = Inr x \<longleftrightarrow> xs = [x]"
  by (cases xs rule: queryset_get.cases) auto

lemma queryset_get_DoesNotExist: "queryset_get xs = Inl DoesNotExist \<longleftrightarrow> xs = []"
  by (cases xs rule: queryset_get.cases) auto

lemma queryset_get_cases:
  "queryset_get xs = Inl DoesNotExist \<and> xs = []
   \<or> (\<exists>x. queryset_get xs = Inr x \<and> xs = [x])
   \<or> queryset_get xs = Inl MultipleObjectsReturned \<and> 2 \<le> length xs"
  by (cases xs rule: queryset_get.cases) auto

lemma get_object_or_404_cases:
  "filter (\<lambda>s. student_pk s = sid) (student_table d) = [] \<and> get_object_or_404 d sid = Inl Http404
   \<or> (\<exists>s. filter (\<lambda>s. student_pk s = sid) (student_table d) = [s] \<and> get_object_or_404 d sid = Inr s)
   \<or> 2 \<le> length (filter (\<lambda>s. student_pk s = sid) (student_table d))
     \<and> get_object_or_404 d sid = Inl MultipleObjectsReturned"
  using queryset_get_cases[of "filter (\<lambda>s. student_pk s = sid) (student_table d)"]
  by (auto simp: get_object_or_404_def)

lemma get_object_or_404_pk: "get_object_or_404 d sid = Inr s \<Longrightarrow> student_pk s = sid"
proof -
  assume a: "get_object_or_404 d sid = Inr s"
  then have "filter (\<lambda>s. student_pk s = sid) (student_table d) = [s]"
    using get_object_or_404_cases[of sid d] by auto
  then have "s \<in> set (filter (\<lambda>s. student_pk s = sid) (student_table d))" by simp
  then show ?thesis by simp
qed

lemma get_object_or_404_cong:
  "student_table d' = student_table d \<Longrightarrow> get_object_or_404 d' sid = get_object_or_404 d sid"
  by (simp add: get_object_or_404_def)

lemma absences_on_delete: "absences_on (snd (absence_delete s today d)) (student_pk s) today = []"
  by (simp add: absence_delete_def absences_on_def)

lemma absence_get_or_create_cases:
  "absences_on d (student_pk s) today = []
     \<and> absence_get_or_create s today now d
       = (let a = \<lparr>absence_pk = Suc (absence_seq d), student_id = student_pk s, date_time = now\<rparr>
          in Inr ((a, True), [InsertAbsence a],
                  d\<lparr>absence_table := absence_table d @ [a], absence_seq := Suc (absence_seq d)\<rparr>))
   \<or> (\<exists>a. absences_on d (student_pk s) today = [a]
         \<and> absence_get_or_create s today now d = Inr ((a, False), [], d))
   \<or> 2 \<le> length (absences_on d (student_pk s) today)
     \<and> absence_get_or_create s today now d = Inl MultipleObjectsReturned"
  using queryset_get_cases[of "absences_on d (student_pk s) today"]
  by (auto simp: absence_get_or_create_def Let_def)

lemma absence_get_or_create_student_table:
  "absence_get_or_create s today now d = Inr (r, ws, d') \<Longrightarrow> student_table d' = student_table d"
  using absence_get_or_create_cases[of d s today now] by (auto simp: Let_def)

lemma mark_student_table:
  "student_table (db_after (mark_attendance m p t1 t2 d)) = student_table d"
proof (cases "get_object_or_404 d (post_student_id p)")
  case (Inl e)
  then show ?thesis by (simp add: mark_attendance_def db_after_def)
next
  case (Inr s)
  show ?thesis
  proof (cases "absence_get_or_create s (date t1) t2 d")
    case (Inl e)
    then show ?thesis using Inr
      by (simp add: mark_attendance_def db_after_def absence_delete_def Let_def)
  next
    case r: (Inr x)
    obtain q ws d' where x: "x = (q, ws, d')" by (cases x) auto
    show ?thesis using Inr r x absence_get_or_create_student_table[of s "date t1" t2 d q ws d']
      by (simp add: mark_attendance_def db_after_def absence_delete_def Let_def)
  qed
qed

lemma mark_present_rows:
  assumes "get_object_or_404 d sid = Inr s"
  shows "absence_table (db_after (mark_attendance POST (mark_present sid pos) t1 t2 d))
       = filter (\<lambda>a. \<not> (student_id a = sid \<and> date (date_time a) = date t1)) (absence_table d)"
  using assms get_object_or_404_pk[OF assms]
  by (simp add: mark_attendance_def mark_present_def db_after_def absence_delete_def Let_def)

lemma mark_absent_existing:
  assumes "get_object_or_404 d sid = Inr s" and "absences_on d sid (date t1) = [a]"
  shows "mark_attendance POST (mark_absent sid pos) t1 t2 d
       = (Inr (Redirect_take_attendance_index (pos + 1)), [], d)"
  using assms get_object_or_404_pk[OF assms(1)]
  by (simp add: mark_attendance_def mark_absent_def absence_get_or_create_def)

lemma mark_absent_fresh:
  assumes "get_object_or_404 d sid = Inr s" and "absences_on d sid (date t1) = []"
  shows "mark_attendance POST (mark_absent sid pos) t1 t2 d
       = (let a = \<lparr>absence_pk = Suc (absence_seq d), student_id = sid, date_time = t2\<rparr>
          in (Inr (Redirect_take_attendance_index (pos + 1)), [InsertAbsence a],
              d\<lparr>absence_table := absence_table d @ [a], absence_seq := Suc (absence_seq d)\<rparr>))"
  using assms get_object_or_404_pk[OF assms(1)]
  by (simp add: mark_attendance_def mark_absent_def absence_get_or_create_def Let_def)

lemma mark_absent_many:
  assumes "get_object_or_404 d sid = Inr s" and "2 \<le> length (absences_on d sid (date t1))"
  shows "mark_attendance POST (mark_absent sid pos) t1 t2 d = (Inl MultipleObjectsReturned, [], d)"
proof -
  obtain x y zs where "absences_on d sid (date t1) = x # y # zs"
    using assms(2) by (cases "absences_on d sid (date t1)" rule: queryset_get.cases) auto
  then show ?thesis
    using assms(1) get_object_or_404_pk[OF assms(1)]
    by (simp add: mark_attendance_def mark_absent_def absence_get_or_create_def)
qed

lemma mark_absent_leaves_one:
  assumes "get_object_or_404 d sid = Inr s"
    and "length (absences_on d sid (date t1)) \<le> 1"
    and "date t2 = date t1"
  shows "\<exists>a. absences_on (db_after (mark_attendance POST (mark_absent sid pos) t1 t2 d)) sid (date t1) = [a]"
proof (cases "absences_on d sid (date t1)")
  case Nil
  have "mark_attendance POST (mark_absent sid pos) t1 t2 d
      = (Inr (Redirect_take_attendance_index (pos + 1)),
         [InsertAbsence \<lparr>absence_pk = Suc (absence_seq d), student_id = sid, date_time = t2\<rparr>],
         d\<lparr>absence_table := absence_table d @ [\<lparr>absence_pk = Suc (absence_seq d), student_id = sid, date_time = t2\<rparr>],
           absence_seq := Suc (absence_seq d)\<rparr>)"
    using mark_absent_fresh[OF assms(1) Nil, of pos t2] by (simp add: Let_def)
  moreover have "filter (\<lambda>a. student_id a = sid \<and> date (date_time a) = date t1) (absence_table d) = []"
    using Nil by (simp add: absences_on_def)
  ultimately show ?thesis
    using assms(3) by (simp add: db_after_def absences_on_def)
next
  case (Cons a as)
  then have one: "absences_on d sid (date t1) = [a]" using assms(2) by simp
  have "mark_attendance POST (mark_absent sid pos) t1 t2 d
      = (Inr (Redirect_take_attendance_index (pos + 1)), [], d)"
    by (rule mark_absent_existing[OF assms(1) one])
  then show ?thesis using one by (simp add: db_after_def)
qed

text \<open>
  Claim C1 (as amended). Let student \<open>sid\<close> exist and let the database hold at most one
  Absence row for (\<open>sid\<close>, today). When \<^verbatim>\<open>mark(sid, pos, ABSENT)\<close> is called twice in a
  row on the same day, exactly one Absence row for (\<open>sid\<close>, today) is left, and the
  second call sends no write and returns the database of the first call unchanged: no
  duplicate row, and the timestamp of the existing row stays as it is.
\<close>

theorem mark_absent_twice:
  assumes "get_object_or_404 d sid = Inr s"
    and "length (absences_on d sid (date t1)) \<le> 1"
    and "date t2 = date t1" and "date t3 = date t1"
  shows "length (absences_on (db_after (mark_attendance POST (mark_absent sid pos) t3 t4
            (db_after (mark_attendance POST (mark_absent sid pos) t1 t2 d)))) sid (date t1)) = 1
       \<and> mark_attendance POST (mark_absent sid pos) t3 t4
            (db_after (mark_attendance POST (mark_absent sid pos) t1 t2 d))
         = (Inr (Redirect_take_attendance_index (pos + 1)), [],
            db_after (mark_attendance POST (mark_absent sid pos) t1 t2 d))"
proof -
  let ?d1 = "db_after (mark_attendance POST (mark_absent sid pos) t1 t2 d)"
  have "get_object_or_404 ?d1 sid = get_object_or_404 d sid"
    by (rule get_object_or_404_cong) (rule mark_student_table)
  then have s1: "get_object_or_404 ?d1 sid = Inr s"
    using assms(1) by simp
  from mark_absent_leaves_one[OF assms(1,2,3)]
  obtain a where at1: "absences_on ?d1 sid (date t1) = [a]" ..
  then have one: "absences_on ?d1 sid (date t3) = [a]"
    by (simp only: assms(4))
  have second: "mark_attendance POST (mark_absent sid pos) t3 t4 ?d1
      = (Inr (Redirect_take_attendance_index (pos + 1)), [], ?d1)"
    by (rule mark_absent_existing[OF s1 one])
  have "db_after (mark_attendance POST (mark_absent sid pos) t3 t4 ?d1) = ?d1"
    by (subst second) (simp only: db_after_def snd_conv)
  then have "length (absences_on (db_after (mark_attendance POST (mark_absent sid pos) t3 t4 ?d1)) sid (date t1)) = 1"
    using at1 by (simp only: list.size One_nat_def add_0)
  with second show ?thesis by (rule conjI[rotated])
qed

lemmas example_defs = day1_def morning_def noon_def student_A_def student_B_def db_roster_def
  db_marked_def db_duplicated_def before_midnight_def after_midnight_def yesterday_noon_def
  db_two_days_def

lemmas mark_defs = mark_attendance_def mark_absent_def mark_present_def get_object_or_404_def
  absence_get_or_create_def absence_delete_def absences_on_def db_after_def writes_of_def Let_def

text \<open>
  The claim as stated quantifies over every state. In a state that already holds two
  Absence rows for the student and the day, \<^verbatim>\<open>get_or_create\<close> raises
  \<^verbatim>\<open>MultipleObjectsReturned\<close>; both calls fail and the two rows stay.
\<close>

theorem mark_absent_twice_counterexample:
  "get_object_or_404 db_duplicated 1 = Inr student_A
   \<and> mark_attendance POST (mark_absent 1 0) morning morning db_duplicated
       = (Inl MultipleObjectsReturned, [], db_duplicated)
   \<and> length (absences_on (db_after (mark_attendance POST (mark_absent 1 0) noon noon
         (db_after (mark_attendance POST (mark_absent 1 0) morning morning db_duplicated)))) 1 day1) = 2"
  by (simp add: example_defs mark_defs)

text \<open>Student A of the example roster, marked absent twice on one day.\<close>

theorem mark_absent_twice_witness:
  "get_object_or_404 db_roster 1 = Inr student_A
   \<and> length (absences_on db_roster 1 (date morning)) \<le> 1
   \<and> length (absences_on (db_after (mark_attendance POST (mark_absent 1 0) noon noon
         (db_after (mark_attendance POST (mark_absent 1 0) morning morning db_roster)))) 1 (date morning)) = 1"
proof -
  have h1: "get_object_or_404 db_roster 1 = Inr student_A" by (simp add: example_defs mark_defs)
  have h2: "length (absences_on db_roster 1 (date morning)) \<le> 1" by (simp add: example_defs mark_defs)
  have h3: "date morning = date morning" by simp
  have h4: "date noon = date morning" by (simp add: example_defs)
  show ?thesis using mark_absent_twice[OF h1 h2 h3 h4, of 0 noon] h1 h2 by blast
qed

text \<open>
  Claim C2. Toggle correctness: for an existing student \<open>sid\<close> and from any state,
  \<^verbatim>\<open>mark(sid, pos, ABSENT)\<close> followed by \<^verbatim>\<open>mark(sid, pos, PRESENT)\<close> on the same day
  leaves no Absence row for (\<open>sid\<close>, today); and marking PRESENT when no such row
  exists leaves the database as it was.
\<close>

theorem mark_absent_then_present:
  assumes "get_object_or_404 d sid = Inr s" and "date t3 = date t1"
  shows "absences_on (db_after (mark_attendance POST (mark_present sid pos) t3 t4
            (db_after (mark_attendance POST (mark_absent sid pos) t1 t2 d)))) sid (date t1) = []
       \<and> (absences_on d sid (date t1) = [] \<longrightarrow>
            db_after (mark_attendance POST (mark_present sid pos) t1 t2 d) = d)"
proof -
  let ?d1 = "db_after (mark_attendance POST (mark_absent sid pos) t1 t2 d)"
  have "get_object_or_404 ?d1 sid = get_object_or_404 d sid"
    by (rule get_object_or_404_cong) (rule mark_student_table)
  then have s1: "get_object_or_404 ?d1 sid = Inr s" using assms(1) by simp
  have a: "absences_on (db_after (mark_attendance POST (mark_present sid pos) t3 t4 ?d1)) sid (date t1) = []"
    unfolding absences_on_def mark_present_rows[OF s1] using assms(2) by simp
  have b: "db_after (mark_attendance POST (mark_present sid pos) t1 t2 d) = d"
    if none: "absences_on d sid (date t1) = []"
  proof -
    have "filter (\<lambda>a. \<not> (student_id a = sid \<and> date (date_time a) = date t1)) (absence_table d)
        = absence_table d"
      using none unfolding absences_on_def by (simp add: filter_empty_conv)
    then show ?thesis
      using assms(1) get_object_or_404_pk[OF assms(1)]
      by (simp add: mark_attendance_def mark_present_def db_after_def absence_delete_def Let_def)
  qed
  from a b show ?thesis by blast
qed

text \<open>The toggle on student A of the example roster.\<close>

theorem mark_absent_then_present_witness:
  "get_object_or_404 db_roster 1 = Inr student_A \<and> date noon = date morning
   \<and> absences_on db_roster 1 (date morning) = []
   \<and> absences_on (db_after (mark_attendance POST (mark_present 1 0) noon noon
         (db_after (mark_attendance POST (mark_absent 1 0) morning morning db_roster)))) 1 (date morning) = []
   \<and> db_after (mark_attendance POST (mark_present 1 0) morning morning db_roster) = db_roster"
proof -
  have h1: "get_object_or_404 db_roster 1 = Inr student_A" by (simp add: example_defs mark_defs)
  have h2: "date noon = date morning" by (simp add: example_defs)
  have h3: "absences_on db_roster 1 (date morning) = []" by (simp add: example_defs mark_defs)
  show ?thesis using mark_absent_then_present[OF h1 h2, of 0 noon morning] h1 h2 h3 by simp
qed

text \<open>
  Claim C10. Marking an existing student PRESENT removes every Absence row for
  (student, today), however many there are: afterwards the Absence table is the old one
  without exactly those rows, so no row for (student, today) is left, and the call
  answers with the redirect to the next position.
\<close>

theorem mark_present_deletes_all:
  assumes "get_object_or_404 d sid = Inr s"
  shows "absences_on (db_after (mark_attendance POST (mark_present sid pos) t1 t2 d)) sid (date t1) = []
       \<and> absence_table (db_after (mark_attendance POST (mark_present sid pos) t1 t2 d))
         = filter (\<lambda>a. \<not> (student_id a = sid \<and> date (date_time a) = date t1)) (absence_table d)
       \<and> fst (mark_attendance POST (mark_present sid pos) t1 t2 d)
         = Inr (Redirect_take_attendance_index (pos + 1))"
proof -
  have "absences_on (db_after (mark_attendance POST (mark_present sid pos) t1 t2 d)) sid (date t1) = []"
    unfolding absences_on_def mark_present_rows[OF assms] by simp
  moreover have "fst (mark_attendance POST (mark_present sid pos) t1 t2 d)
         = Inr (Redirect_take_attendance_index (pos + 1))"
    using assms by (simp add: mark_attendance_def mark_present_def absence_delete_def Let_def)
  ultimately show ?thesis using mark_present_rows[OF assms] by simp
qed

text \<open>From the state with two rows for student A on the same day, none is left.\<close>

theorem mark_present_deletes_all_witness:
  "get_object_or_404 db_duplicated 1 = Inr student_A
   \<and> length (absences_on db_duplicated 1 (date noon)) = 2
   \<and> absences_on (db_after (mark_attendance POST (mark_present 1 0) noon noon db_duplicated)) 1 (date noon) = []"
proof -
  have h1: "get_object_or_404 db_duplicated 1 = Inr student_A" by (simp add: example_defs mark_defs)
  have h2: "length (absences_on db_duplicated 1 (date noon)) = 2" by (simp add: example_defs mark_defs)
  show ?thesis using mark_present_deletes_all[OF h1, of 0 noon noon] h1 h2 by simp
qed

lemma mark_attendance_GET:
  "m \<noteq> POST \<Longrightarrow> mark_attendance m p t1 t2 d = (Inr Redirect_take_attendance, [], d)"
  by (simp add: mark_attendance_def)

lemma mark_attendance_404:
  "get_object_or_404 d (post_student_id p) = Inl e \<Longrightarrow> mark_attendance POST p t1 t2 d = (Inl e, [], d)"
  by (simp add: mark_attendance_def)

lemma mark_attendance_present:
  assumes "get_object_or_404 d (post_student_id p) = Inr s" and "post_action p \<noteq> Some ''absent''"
  shows "mark_attendance POST p t1 t2 d
       = (Inr (Redirect_take_attendance_index (post_current_index p + 1)),
          [DeleteAbsences (post_student_id p) (date t1)],
          d\<lparr>absence_table :=
              filter (\<lambda>a. \<not> (student_id a = post_student_id p \<and> date (date_time a) = date t1))
                (absence_table d)\<rparr>)"
  using assms get_object_or_404_pk[OF assms(1)]
  by (simp add: mark_attendance_def absence_delete_def Let_def)

lemma mark_attendance_absent:
  assumes "get_object_or_404 d (post_student_id p) = Inr s" and "post_action p = Some ''absent''"
  shows "mark_attendance POST p t1 t2 d
       = (case absence_get_or_create s (date t1) t2 d of
            Inl e \<Rightarrow> (Inl e, [], d)
          | Inr (x, ws, d') \<Rightarrow>
              (Inr (Redirect_take_attendance_index (post_current_index p + 1)), ws, d'))"
  using assms by (simp add: mark_attendance_def Let_def)

lemma filter_other_students:
  "filter (\<lambda>a. student_id a \<noteq> sid)
     (filter (\<lambda>a. \<not> (student_id a = sid \<and> date (date_time a) = today)) xs)
   = filter (\<lambda>a. student_id a \<noteq> sid) xs"
  by (induction xs) auto

lemma filter_other_days:
  "filter (\<lambda>a. \<not> (student_id a = sid \<and> date (date_time a) = today))
     (filter (\<lambda>a. \<not> (student_id a = sid \<and> date (date_time a) = today)) xs)
   = filter (\<lambda>a. \<not> (student_id a = sid \<and> date (date_time a) = today)) xs"
  by (induction xs) auto

lemma mark_attendance_no_write:
  assumes "\<not> (m = POST \<and> (\<exists>s. get_object_or_404 d (post_student_id p) = Inr s))"
  shows "writes_of (mark_attendance m p t1 t2 d) = [] \<and> db_after (mark_attendance m p t1 t2 d) = d"
proof (cases "m = POST")
  case False
  then show ?thesis by (simp add: mark_attendance_GET writes_of_def db_after_def)
next
  case True
  then obtain e where "get_object_or_404 d (post_student_id p) = Inl e"
    using assms by (cases "get_object_or_404 d (post_student_id p)") auto
  then show ?thesis using True by (simp add: mark_attendance_404 writes_of_def db_after_def)
qed

lemma mark_attendance_absent_fresh:
  assumes "get_object_or_404 d (post_student_id p) = Inr s" and "post_action p = Some ''absent''"
    and "absences_on d (post_student_id p) (date t1) = []"
  shows "writes_of (mark_attendance POST p t1 t2 d)
           = [InsertAbsence \<lparr>absence_pk = Suc (absence_seq d), student_id = post_student_id p, date_time = t2\<rparr>]
       \<and> db_after (mark_attendance POST p t1 t2 d)
           = d\<lparr>absence_table := absence_table d
                  @ [\<lparr>absence_pk = Suc (absence_seq d), student_id = post_student_id p, date_time = t2\<rparr>],
               absence_seq := Suc (absence_seq d)\<rparr>"
  using assms get_object_or_404_pk[OF assms(1)]
  by (simp add: mark_attendance_def absence_get_or_create_def writes_of_def db_after_def Let_def)

lemma mark_attendance_absent_existing:
  assumes "get_object_or_404 d (post_student_id p) = Inr s" and "post_action p = Some ''absent''"
    and "absences_on d (post_student_id p) (date t1) \<noteq> []"
  shows "writes_of (mark_attendance POST p t1 t2 d) = [] \<and> db_after (mark_attendance POST p t1 t2 d) = d"
proof -
  note pk = get_object_or_404_pk[OF assms(1)]
  from absence_get_or_create_cases[of d s "date t1" t2] assms(3) pk
  consider (found) a where "absence_get_or_create s (date t1) t2 d = Inr ((a, False), [], d)"
    | (many) "absence_get_or_create s (date t1) t2 d = Inl MultipleObjectsReturned"
    by auto
  then show ?thesis
  proof cases
    case found
    then show ?thesis
      unfolding mark_attendance_absent[OF assms(1,2)] by (simp add: writes_of_def db_after_def)
  next
    case many
    then show ?thesis
      unfolding mark_attendance_absent[OF assms(1,2)] by (simp add: writes_of_def db_after_def)
  qed
qed

lemma mark_attendance_present_writes:
  assumes "get_object_or_404 d (post_student_id p) = Inr s" and "post_action p \<noteq> Some ''absent''"
  shows "writes_of (mark_attendance POST p t1 t2 d) = [DeleteAbsences (post_student_id p) (date t1)]
       \<and> db_after (mark_attendance POST p t1 t2 d)
           = d\<lparr>absence_table :=
                filter (\<lambda>a. \<not> (student_id a = post_student_id p \<and> date (date_time a) = date t1))
                  (absence_table d)\<rparr>"
  unfolding mark_attendance_present[OF assms] by (simp add: writes_of_def db_after_def)

text \<open>
  Claim C9 (as amended). Every call of \<^verbatim>\<open>mark\<close> sends at most one write to the Absence
  table. Marking ABSENT inserts one row for the student, stamped with the second clock
  reading of the call, when no row for (student, today) exists, and writes nothing when
  such a row exists; any other decision sends one delete that removes the student's rows
  dated today; a call that is not a POST, or that names no existing student, writes
  nothing and leaves the database as it was. No row of another student changes, nor the
  Student table. When the two clock readings of the call fall on the same day, every
  write is scoped to (student, today) and no row of another day changes.
\<close>

theorem mark_writes_scoped:
  assumes "r = mark_attendance m p t1 t2 d"
  shows "length (writes_of r) \<le> 1
       \<and> filter (\<lambda>a. student_id a \<noteq> post_student_id p) (absence_table (db_after r))
         = filter (\<lambda>a. student_id a \<noteq> post_student_id p) (absence_table d)
       \<and> student_table (db_after r) = student_table d
       \<and> (date t2 = date t1 \<longrightarrow>
            (\<forall>w \<in> set (writes_of r). write_scoped (post_student_id p) (date t1) w)
            \<and> filter (\<lambda>a. \<not> (student_id a = post_student_id p \<and> date (date_time a) = date t1))
                 (absence_table (db_after r))
              = filter (\<lambda>a. \<not> (student_id a = post_student_id p \<and> date (date_time a) = date t1))
                 (absence_table d))
       \<and> (m = POST \<and> (\<exists>s. get_object_or_404 d (post_student_id p) = Inr s) \<longrightarrow>
            (if post_action p = Some ''absent'' then
               (if absences_on d (post_student_id p) (date t1) = [] then
                  writes_of r = [InsertAbsence \<lparr>absence_pk = Suc (absence_seq d),
                                    student_id = post_student_id p, date_time = t2\<rparr>]
                  \<and> absence_table (db_after r)
                    = absence_table d @ [\<lparr>absence_pk = Suc (absence_seq d),
                                           student_id = post_student_id p, date_time = t2\<rparr>]
                else writes_of r = [] \<and> db_after r = d)
             else
               writes_of r = [DeleteAbsences (post_student_id p) (date t1)]
               \<and> absence_table (db_after r)
                 = filter (\<lambda>a. \<not> (student_id a = post_student_id p \<and> date (date_time a) = date t1))
                     (absence_table d)))
       \<and> (\<not> (m = POST \<and> (\<exists>s. get_object_or_404 d (post_student_id p) = Inr s)) \<longrightarrow>
            writes_of r = [] \<and> db_after r = d)"
proof (cases "m = POST \<and> (\<exists>s. get_object_or_404 d (post_student_id p) = Inr s)")
  case False
  from mark_attendance_no_write[OF False, of t1 t2]
  have "writes_of r = []" "db_after r = d" unfolding assms by simp_all
  then show ?thesis using False by simp
next
  case True
  then obtain s where post: "m = POST" and s: "get_object_or_404 d (post_student_id p) = Inr s"
    by blast
  show ?thesis
  proof (cases "post_action p = Some ''absent''")
    case absent: True
    show ?thesis
    proof (cases "absences_on d (post_student_id p) (date t1) = []")
      case fresh: True
      from mark_attendance_absent_fresh[OF s absent fresh, of t2]
      have w: "writes_of r = [InsertAbsence \<lparr>absence_pk = Suc (absence_seq d),
                  student_id = post_student_id p, date_time = t2\<rparr>]"
        and d': "db_after r = d\<lparr>absence_table := absence_table d
                  @ [\<lparr>absence_pk = Suc (absence_seq d), student_id = post_student_id p, date_time = t2\<rparr>],
               absence_seq := Suc (absence_seq d)\<rparr>"
        unfolding assms post by simp_all
      show ?thesis unfolding w d' using True absent fresh by simp
    next
      case existing: False
      from mark_attendance_absent_existing[OF s absent existing, of t2]
      have "writes_of r = []" "db_after r = d" unfolding assms post by simp_all
      then show ?thesis using True absent existing by simp
    qed
  next
    case present: False
    from mark_attendance_present_writes[OF s present, of t1 t2]
    have w: "writes_of r = [DeleteAbsences (post_student_id p) (date t1)]"
      and d': "db_after r = d\<lparr>absence_table :=
                filter (\<lambda>a. \<not> (student_id a = post_student_id p \<and> date (date_time a) = date t1))
                  (absence_table d)\<rparr>"
      unfolding assms post by simp_all
    have f3: "absence_table (db_after r)
                 = filter (\<lambda>a. \<not> (student_id a = post_student_id p \<and> date (date_time a) = date t1))
                     (absence_table d)"
      unfolding d' by simp
    have f1: "filter (\<lambda>a. student_id a \<noteq> post_student_id p) (absence_table (db_after r))
         = filter (\<lambda>a. student_id a \<noteq> post_student_id p) (absence_table d)"
      unfolding f3 by (rule filter_other_students)
    have f2: "filter (\<lambda>a. \<not> (student_id a = post_student_id p \<and> date (date_time a) = date t1))
                 (absence_table (db_after r))
              = filter (\<lambda>a. \<not> (student_id a = post_student_id p \<and> date (date_time a) = date t1))
                 (absence_table d)"
      unfolding f3 by (rule filter_other_days)
    have f4: "student_table (db_after r) = student_table d" unfolding d' by simp
    have f5: "\<forall>w \<in> set (writes_of r). write_scoped (post_student_id p) (date t1) w"
      unfolding w by simp
    have f6: "length (writes_of r) \<le> 1" unfolding w by simp
    from f1 f2 f3 f4 f5 f6 w show ?thesis using True present by simp
  qed
qed

text \<open>
  The claim as stated promises exactly one write for every call, scoped to today.
  Marking student A absent when A is already marked absent today sends no write at all.
  And the view reads the clock twice: in a call that begins just before midnight and
  reads the timestamp just after, the inserted row is dated the next day.
\<close>

theorem mark_writes_scoped_counterexample:
  "get_object_or_404 db_marked 1 = Inr student_A
   \<and> mark_attendance POST (mark_absent 1 0) noon noon db_marked
     = (Inr (Redirect_take_attendance_index 1), [], db_marked)
   \<and> length (writes_of (mark_attendance POST (mark_absent 1 0) noon noon db_marked)) \<noteq> 1
   \<and> writes_of (mark_attendance POST (mark_absent 1 0) before_midnight after_midnight db_roster)
     = [InsertAbsence \<lparr>absence_pk = 1, student_id = 1, date_time = after_midnight\<rparr>]
   \<and> \<not> write_scoped 1 (date before_midnight)
         (InsertAbsence \<lparr>absence_pk = 1, student_id = 1, date_time = after_midnight\<rparr>)"
  by (simp add: example_defs mark_defs before_midnight_def after_midnight_def)

text \<open>
  Marking student A absent on the fresh roster sends one scoped insert; marking A
  present deletes the row of A of today and keeps the row of B of the day before.
\<close>

theorem mark_writes_scoped_witness:
  "date noon = date morning
   \<and> get_object_or_404 db_roster 1 = Inr student_A
   \<and> absences_on db_roster 1 (date morning) = []
   \<and> writes_of (mark_attendance POST (mark_absent 1 0) morning noon db_roster)
     = [InsertAbsence \<lparr>absence_pk = 1, student_id = 1, date_time = noon\<rparr>]
   \<and> write_scoped 1 (date morning) (InsertAbsence \<lparr>absence_pk = 1, student_id = 1, date_time = noon\<rparr>)
   \<and> get_object_or_404 db_two_days 1 = Inr student_A
   \<and> writes_of (mark_attendance POST (mark_present 1 0) morning noon db_two_days)
     = [DeleteAbsences 1 (date morning)]
   \<and> absence_table (db_after (mark_attendance POST (mark_present 1 0) morning noon db_two_days))
     = [\<lparr>absence_pk = 1, student_id = 2, date_time = yesterday_noon\<rparr>]"
proof -
  have h: "date noon = date morning" by (simp add: example_defs)
  have s: "get_object_or_404 db_roster 1 = Inr student_A"
    by (simp add: example_defs mark_defs)
  have n: "absences_on db_roster 1 (date morning) = []"
    by (simp add: example_defs mark_defs)
  have s2: "get_object_or_404 db_two_days 1 = Inr student_A"
    by (simp add: example_defs mark_defs db_two_days_def)
  have f: "filter (\<lambda>a. \<not> (student_id a = 1 \<and> date (date_time a) = date morning))
             (absence_table db_two_days)
           = [\<lparr>absence_pk = 1, student_id = 2, date_time = yesterday_noon\<rparr>]"
    by (simp add: example_defs db_two_days_def yesterday_noon_def)
  have pa: "post_student_id (mark_absent 1 0) = 1" "post_action (mark_absent 1 0) = Some ''absent''"
    by (simp_all add: mark_absent_def)
  have pp: "post_student_id (mark_present 1 0) = 1" "post_action (mark_present 1 0) \<noteq> Some ''absent''"
    by (simp_all add: mark_present_def)
  have a: "writes_of (mark_attendance POST (mark_absent 1 0) morning noon db_roster)
     = [InsertAbsence \<lparr>absence_pk = 1, student_id = 1, date_time = noon\<rparr>]"
    using mark_writes_scoped[OF refl, of POST "mark_absent 1 0" morning noon db_roster] s n pa
    by (simp add: db_roster_def)
  have b: "writes_of (mark_attendance POST (mark_present 1 0) morning noon db_two_days)
     = [DeleteAbsences 1 (date morning)]
   \<and> absence_table (db_after (mark_attendance POST (mark_present 1 0) morning noon db_two_days))
     = [\<lparr>absence_pk = 1, student_id = 2, date_time = yesterday_noon\<rparr>]"
    using mark_writes_scoped[OF refl, of POST "mark_present 1 0" morning noon db_two_days] s2 pp f
    by simp
  have w: "write_scoped 1 (date morning) (InsertAbsence \<lparr>absence_pk = 1, student_id = 1, date_time = noon\<rparr>)"
    using h by simp
  show ?thesis using h s n a b w s2 by blast
qed

section \<open>Properties of take_attendance and of the reports\<close>

lemmas view_defs = take_attendance_def students_by_roll_def student_of_def absentees_by_roll_def
  absences_dated_def py_truediv_def py_round_def print_absentees_def absentees_list_def
  exact_ops_def db_empty_def List.map_filter_def

lemma absentees_list_unbound:
  assumes "date_filter = Some (c # cs)" and "strptime (c # cs) = None"
  shows "absentees_list strptime date_filter now d = Inl UnboundLocalError"
  using assms by (simp add: absentees_list_def)

text \<open>
  Claim C3. The claim says that a malformed date gives an empty result and no error.
  The view catches the \<^verbatim>\<open>ValueError\<close> and binds the empty queryset, but then reads
  the local variable \<^verbatim>\<open>filter_date\<close>, which that branch never bound: for every
  non-empty date string the parser rejects, the view raises \<^verbatim>\<open>UnboundLocalError\<close>.
\<close>

theorem absentees_list_malformed_raises:
  assumes "date_filter = Some s" and "s \<noteq> []" and "strptime s = None"
  shows "absentees_list strptime date_filter now d = Inl UnboundLocalError"
proof -
  obtain c cs where "s = c # cs" using assms(2) by (cases s) auto
  then show ?thesis using assms(1,3) by (simp add: absentees_list_unbound)
qed

text \<open>The scenario of the specification, \<^verbatim>\<open>absentees_list(date="not-a-date")\<close>.\<close>

theorem absentees_list_not_a_date:
  "strptime_ymd ''not-a-date'' = None
   \<and> absentees_list strptime_ymd (Some ''not-a-date'') noon db_marked = Inl UnboundLocalError"
proof -
  have h: "strptime_ymd ''not-a-date'' = None" by (simp add: is_digit_def)
  show ?thesis
    using absentees_list_malformed_raises
            [of "Some ''not-a-date''" "''not-a-date''" strptime_ymd noon db_marked] h
    by simp
qed

lemma absentees_list_valid:
  "absentees_list strptime_ymd (Some ''2024-03-04'') noon db_marked
   = Inr \<lparr>list_absent_students = [(\<lparr>absence_pk = 1, student_id = 1, date_time = morning\<rparr>, student_A)],
          filter_date = day1, list_total_absent = 1\<rparr>"
  by (simp add: view_defs example_defs is_digit_def digit_val_def days_in_month_def is_leap_def)

text \<open>
  Claim C4 (as amended). For every roster and every position: when the position is at
  or beyond the roster size, \<^verbatim>\<open>current\<close> redirects to the completion report; when
  \<open>0 \<le> position < roster size\<close>, it returns the student at that ordinal position of the
  roster in ascending roll-number order (a sorted rearrangement of the Student table),
  with a flag that is true exactly when an Absence row of that student dated today
  exists.
\<close>

theorem take_attendance_current:
  "(int (length (student_table d)) \<le> pos \<longrightarrow>
      take_attendance pos now d = Inr Redirect_attendance_complete)
   \<and> (0 \<le> pos \<and> pos < int (length (student_table d)) \<longrightarrow>
        (\<exists>ctx. take_attendance pos now d = Inr (Render_take_attendance ctx)
           \<and> current_student ctx = students_by_roll d ! nat pos
           \<and> current_student ctx \<in> set (student_table d)
           \<and> is_absent_today ctx
               = (\<exists>a \<in> set (absence_table d).
                    student_id a = student_pk (current_student ctx) \<and> date (date_time a) = date now)
           \<and> current_index ctx = pos
           \<and> total_students ctx = length (student_table d)))
   \<and> sorted (map roll_number (students_by_roll d))
   \<and> mset (students_by_roll d) = mset (student_table d)"
proof -
  have len: "length (students_by_roll d) = length (student_table d)"
    by (simp add: students_by_roll_def)
  have set_eq: "set (students_by_roll d) = set (student_table d)"
    by (simp add: students_by_roll_def)
  have a: "take_attendance pos now d = Inr Redirect_attendance_complete"
    if "int (length (student_table d)) \<le> pos"
    using that by (simp add: take_attendance_def len)
  have b: "\<exists>ctx. take_attendance pos now d = Inr (Render_take_attendance ctx)
           \<and> current_student ctx = students_by_roll d ! nat pos
           \<and> current_student ctx \<in> set (student_table d)
           \<and> is_absent_today ctx
               = (\<exists>a \<in> set (absence_table d).
                    student_id a = student_pk (current_student ctx) \<and> date (date_time a) = date now)
           \<and> current_index ctx = pos
           \<and> total_students ctx = length (student_table d)"
    if "0 \<le> pos \<and> pos < int (length (student_table d))"
  proof -
    have "nat pos < length (students_by_roll d)" using that len by linarith
    then have "students_by_roll d ! nat pos \<in> set (student_table d)"
      using set_eq nth_mem by blast
    then show ?thesis
      using that by (auto simp: take_attendance_def len Let_def absences_on_def filter_empty_conv)
  qed
  have c: "sorted (map roll_number (students_by_roll d))"
    by (simp add: students_by_roll_def)
  have e: "mset (students_by_roll d) = mset (student_table d)"
    by (simp add: students_by_roll_def)
  from a b c e show ?thesis by blast
qed

text \<open>
  The claim as stated covers every position below the roster size. The position is an
  integer read from the request, and at \<open>-1\<close>, which is below the roster size, the view
  neither redirects nor returns a student: indexing the queryset raises.
\<close>

theorem take_attendance_current_counterexample:
  "(-1) < int (length (student_table db_roster))
   \<and> take_attendance (-1) noon db_roster = Inl NegativeIndexing"
  by (simp add: view_defs example_defs)

lemma students_by_roll_db_marked: "students_by_roll db_marked = [student_A, student_B]"
  by (simp add: view_defs example_defs)

text \<open>Position 0 of the example roster is student A, absent today; position 2 is past the end.\<close>

theorem take_attendance_current_witness:
  "(0::int) \<le> 0 \<and> 0 < int (length (student_table db_marked))
   \<and> int (length (student_table db_marked)) \<le> 2
   \<and> take_attendance 2 noon db_marked = Inr Redirect_attendance_complete
   \<and> take_attendance 0 noon db_marked
       = Inr (Render_take_attendance \<lparr>current_student = student_A, current_index = 0,
              total_students = 2, is_absent_today = True\<rparr>)"
proof -
  have h1: "(0::int) \<le> 0 \<and> 0 < int (length (student_table db_marked))"
    by (simp add: example_defs)
  have h2: "int (length (student_table db_marked)) \<le> 2" by (simp add: example_defs)
  have r0: "take_attendance 0 noon db_marked
       = Inr (Render_take_attendance \<lparr>current_student = student_A, current_index = 0,
              total_students = 2, is_absent_today = True\<rparr>)"
    by (simp add: take_attendance_def students_by_roll_db_marked Let_def)
       (simp add: example_defs mark_defs)
  have r2: "take_attendance 2 noon db_marked = Inr Redirect_attendance_complete"
    using take_attendance_current[of db_marked 2 noon] h2 by blast
  show ?thesis using h1 h2 r0 r2 by blast
qed

text \<open>
  Claim C5. The report never fails, and for every state and date its totals satisfy
  \<open>totalPresent + totalAbsent = totalStudents\<close>, where \<open>totalAbsent\<close> is the number of
  rows of the Absence table whose timestamp falls on the date, \<open>totalStudents\<close> is the
  roster size and \<open>totalPresent = totalStudents - totalAbsent\<close>.
\<close>

theorem print_absentees_totals:
  "\<exists>ctx. print_absentees ops now d = Inr ctx
     \<and> total_absent ctx
         = int (length (filter (\<lambda>a. date (date_time a) = date now) (absence_table d)))
     \<and> total_present ctx = int (length (student_table d)) - total_absent ctx
     \<and> total_present ctx + total_absent ctx = int (length (student_table d))"
  by (simp add: print_absentees_def absences_dated_def py_truediv_def Let_def)

text \<open>
  A absent today and B present, in a database that also holds a row of the day before:
  that row is not counted.
\<close>

theorem print_absentees_totals_witness:
  "length (filter (\<lambda>a. date (date_time a) = date noon) (absence_table db_two_days)) = 1
   \<and> length (absence_table db_two_days) = 2
   \<and> length (student_table db_two_days) = 2
   \<and> (\<exists>ctx. print_absentees exact_ops noon db_two_days = Inr ctx
         \<and> total_absent ctx = 1 \<and> total_present ctx = 1
         \<and> total_present ctx + total_absent ctx = 2)"
proof -
  have a: "length (filter (\<lambda>a. date (date_time a) = date noon) (absence_table db_two_days)) = 1"
    by (simp add: example_defs db_two_days_def yesterday_noon_def)
  have b: "length (absence_table db_two_days) = 2" "length (student_table db_two_days) = 2"
    by (simp_all add: example_defs db_two_days_def)
  show ?thesis using print_absentees_totals[of exact_ops noon db_two_days] a b by auto
qed

text \<open>
  Claim C6. The report never fails, so in particular not with a division by zero; its
  percentage is \<^verbatim>\<open>round(totalPresent / totalStudents * 100, 2)\<close> when the roster is not
  empty, and the integer 0 when it is.
\<close>

theorem print_absentees_percentage:
  "\<exists>ctx. print_absentees ops now d = Inr ctx
     \<and> attendance_percentage ctx
       = (if 0 < length (student_table d)
          then PyFloat (fround ops
                 (fmul ops (truediv ops (int (length (student_table d))
                                          - int (length (absences_dated d (date now))))
                                        (int (length (student_table d)))) 100) 2)
          else PyInt 0)"
  by (simp add: print_absentees_def py_truediv_def py_round_def Let_def)

text \<open>The empty roster gives 0; A absent and B present give 50 in exact arithmetic.\<close>

theorem print_absentees_percentage_witness:
  "(\<exists>ctx. print_absentees exact_ops noon db_empty = Inr ctx \<and> attendance_percentage ctx = PyInt 0)
   \<and> (\<exists>ctx. print_absentees exact_ops noon db_marked = Inr ctx \<and> attendance_percentage ctx = PyFloat 50)"
proof -
  have e: "length (student_table db_empty) = 0" by (simp add: db_empty_def)
  have m: "length (student_table db_marked) = 2" "length (absences_dated db_marked (date noon)) = 1"
    by (simp_all add: view_defs example_defs)
  have f: "fround exact_ops (fmul exact_ops (truediv exact_ops 1 2) 100) 2 = 50"
    by (simp add: exact_ops_def floor_eq_iff)
  show ?thesis
    using print_absentees_percentage[of exact_ops noon db_empty]
      print_absentees_percentage[of exact_ops noon db_marked] e m f by auto
qed

section \<open>Properties of import_students\<close>

lemma filter_unique_key:
  "distinct (map f xs) \<Longrightarrow> x \<in> set xs \<Longrightarrow> filter (\<lambda>y. f y = f x) xs = [x]"
proof (induction xs)
  case Nil
  then show ?case by simp
next
  case (Cons a xs)
  show ?case
  proof (cases "a = x")
    case True
    have "f x \<notin> f ` set xs" using Cons.prems(1) True by simp
    then have "\<forall>y \<in> set xs. f y \<noteq> f x" by (metis imageI)
    then have "filter (\<lambda>y. f y = f x) xs = []" by (simp add: filter_empty_conv)
    then show ?thesis using True by simp
  next
    case False
    then have x: "x \<in> set xs" using Cons.prems(2) by simp
    then have "f a \<noteq> f x" using Cons.prems(1) by auto
    then show ?thesis using Cons.IH x Cons.prems(1) by simp
  qed
qed

lemma student_get_or_create_found:
  assumes "distinct (map roll_number (student_table d))" and "roll \<in> rolls d"
  shows "\<exists>s. s \<in> set (student_table d) \<and> roll_number s = roll
           \<and> student_get_or_create strict roll name course now d = Inr ((s, False), d)"
proof -
  obtain s where s: "s \<in> set (student_table d)" "roll_number s = roll"
    using assms(2) by (auto simp: rolls_def)
  have "filter (\<lambda>y. roll_number y = roll_number s) (student_table d) = [s]"
    by (rule filter_unique_key[OF assms(1) s(1)])
  then have "student_get_or_create strict roll name course now d = Inr ((s, False), d)"
    using s(2) by (simp add: student_get_or_create_def)
  then show ?thesis using s by blast
qed

lemma student_get_or_create_new:
  assumes "roll \<notin> rolls d"
  shows "student_get_or_create strict roll name course now d =
     (if strict \<and> (length name > 100 \<or> length roll > 20 \<or> length course > 100)
      then Inl DataError
      else Inr ((\<lparr>student_pk = Suc (student_seq d), student_name = name, roll_number = roll,
                    course_name = course, created_at = now\<rparr>, True),
                d\<lparr>student_table := student_table d
                      @ [\<lparr>student_pk = Suc (student_seq d), student_name = name, roll_number = roll,
                          course_name = course, created_at = now\<rparr>],
                  student_seq := Suc (student_seq d)\<rparr>))"
proof -
  have "filter (\<lambda>s. roll_number s = roll) (student_table d) = []"
    using assms by (auto simp: rolls_def filter_empty_conv)
  then show ?thesis by (simp add: student_get_or_create_def Let_def)
qed

lemma import_row_cases:
  assumes "distinct (map roll_number (student_table d))"
  shows "(roll_key row \<in> rolls d
            \<and> (\<exists>s. import_row strict now row d = Inr ((s, False), d)))
       \<or> (roll_key row \<notin> rolls d \<and> import_row strict now row d = Inl DataError)
       \<or> (roll_key row \<notin> rolls d
            \<and> (\<exists>s. roll_number s = roll_key row
                  \<and> import_row strict now row d
                    = Inr ((s, True), d\<lparr>student_table := student_table d @ [s],
                                        student_seq := Suc (student_seq d)\<rparr>)))"
proof (cases "roll_key row \<in> rolls d")
  case True
  then show ?thesis
    using student_get_or_create_found[OF assms, of "roll_key row" strict
        "strip (row ''Student Name'')" "strip (row ''Course Name'')" now]
    by (auto simp: import_row_def roll_key_def)
next
  case False
  then show ?thesis
    using student_get_or_create_new[of "roll_key row" d strict
        "strip (row ''Student Name'')" "strip (row ''Course Name'')" now]
    by (auto simp: import_row_def roll_key_def)
qed

lemma import_row_error_clock:
  assumes "distinct (map roll_number (student_table d))"
    and "import_row strict now row d = Inl e"
  shows "import_row strict now' row d = Inl e"
proof -
  have new: "roll_key row \<notin> rolls d"
    using import_row_cases[OF assms(1), of row strict now] assms(2) by auto
  show ?thesis
    using assms(2) student_get_or_create_new[OF new, of strict
        "strip (row ''Student Name'')" "strip (row ''Course Name'')"]
    by (auto simp: import_row_def roll_key_def split: if_splits)
qed

lemma import_rows_table:
  assumes "distinct (map roll_number (student_table d))"
    and "import_rows strict clock i rs c d = (res, d')"
  shows "distinct (map roll_number (student_table d'))
       \<and> (\<exists>new. student_table d' = student_table d @ new)
       \<and> absence_table d' = absence_table d"
  using assms
proof (induction rs arbitrary: i c d)
  case Nil
  then show ?case by simp
next
  case (Cons row rs)
  from import_row_cases[OF Cons.prems(1), of row strict "clock i"]
  consider (found) s where "roll_key row \<in> rolls d"
        "import_row strict (clock i) row d = Inr ((s, False), d)"
    | (err) "import_row strict (clock i) row d = Inl DataError"
    | (new) s where "roll_key row \<notin> rolls d" "roll_number s = roll_key row"
        "import_row strict (clock i) row d
          = Inr ((s, True), d\<lparr>student_table := student_table d @ [s],
                              student_seq := Suc (student_seq d)\<rparr>)"
    by blast
  then show ?case
  proof cases
    case found
    then have "import_rows strict clock (Suc i) rs c d = (res, d')"
      using Cons.prems(2) by simp
    then show ?thesis using Cons.IH[OF Cons.prems(1)] by blast
  next
    case err
    then show ?thesis using Cons.prems by simp
  next
    case new
    let ?d1 = "d\<lparr>student_table := student_table d @ [s], student_seq := Suc (student_seq d)\<rparr>"
    have run: "import_rows strict clock (Suc i) rs (Suc c) ?d1 = (res, d')"
      using Cons.prems(2) new(3) by simp
    have dist: "distinct (map roll_number (student_table ?d1))"
      using Cons.prems(1) new(1,2) by (simp add: rolls_def)
    from Cons.IH[OF dist run] show ?thesis by auto
  qed
qed

lemma import_rows_count:
  assumes "distinct (map roll_number (student_table d))"
    and "import_rows strict clock i rs c d = (Inr n, d')"
  shows "n = c + card (set (map roll_key rs) - rolls d)
       \<and> rolls d' = rolls d \<union> set (map roll_key rs)
       \<and> length (student_table d') = length (student_table d) + (n - c)"
  using assms
proof (induction rs arbitrary: i c d)
  case Nil
  then show ?case by simp
next
  case (Cons row rs)
  from import_row_cases[OF Cons.prems(1), of row strict "clock i"]
  consider (found) s where "roll_key row \<in> rolls d"
        "import_row strict (clock i) row d = Inr ((s, False), d)"
    | (err) "import_row strict (clock i) row d = Inl DataError"
    | (new) s where "roll_key row \<notin> rolls d" "roll_number s = roll_key row"
        "import_row strict (clock i) row d
          = Inr ((s, True), d\<lparr>student_table := student_table d @ [s],
                              student_seq := Suc (student_seq d)\<rparr>)"
    by blast
  then show ?case
  proof cases
    case found
    then have run: "import_rows strict clock (Suc i) rs c d = (Inr n, d')"
      using Cons.prems(2) by simp
    have "set (map roll_key (row # rs)) - rolls d = set (map roll_key rs) - rolls d"
      using found(1) by auto
    moreover have "rolls d \<union> set (map roll_key (row # rs)) = rolls d \<union> set (map roll_key rs)"
      using found(1) by auto
    ultimately show ?thesis using Cons.IH[OF Cons.prems(1) run] by simp
  next
    case err
    then show ?thesis using Cons.prems by simp
  next
    case new
    let ?d1 = "d\<lparr>student_table := student_table d @ [s], student_seq := Suc (student_seq d)\<rparr>"
    have run: "import_rows strict clock (Suc i) rs (Suc c) ?d1 = (Inr n, d')"
      using Cons.prems(2) new(3) by simp
    have dist: "distinct (map roll_number (student_table ?d1))"
      using Cons.prems(1) new(1,2) by (simp add: rolls_def)
    have r1: "rolls ?d1 = insert (roll_key row) (rolls d)"
      using new(2) by (simp add: rolls_def)
    note ih = Cons.IH[OF dist run]
    have fin: "finite (set (map roll_key rs) - rolls ?d1)" by simp
    have "set (map roll_key (row # rs)) - rolls d
          = insert (roll_key row) (set (map roll_key rs) - rolls ?d1)"
      using new(1) r1 by auto
    moreover have "roll_key row \<notin> set (map roll_key rs) - rolls ?d1" using r1 by simp
    ultimately have card: "card (set (map roll_key (row # rs)) - rolls d)
          = Suc (card (set (map roll_key rs) - rolls ?d1))"
      using fin by (simp del: set_map)
    have "Suc c \<le> n" using ih by simp
    then show ?thesis using ih card r1 by auto
  qed
qed

lemma import_rows_again:
  assumes "distinct (map roll_number (student_table d))"
    and "import_rows strict clock i rs c d = (res, d')"
  shows "import_rows strict clock' j rs c' d'
       = ((case res of Inl e \<Rightarrow> Inl e | Inr n \<Rightarrow> Inr c'), d')"
  using assms
proof (induction rs arbitrary: i j c c' d)
  case Nil
  then show ?case by auto
next
  case (Cons row rs)
  from import_row_cases[OF Cons.prems(1), of row strict "clock i"]
  consider (found) s where "roll_key row \<in> rolls d"
        "import_row strict (clock i) row d = Inr ((s, False), d)"
    | (err) "import_row strict (clock i) row d = Inl DataError"
    | (new) s where "roll_key row \<notin> rolls d" "roll_number s = roll_key row"
        "import_row strict (clock i) row d
          = Inr ((s, True), d\<lparr>student_table := student_table d @ [s],
                              student_seq := Suc (student_seq d)\<rparr>)"
    by blast
  then show ?case
  proof cases
    case err
    then have "res = Inl DataError" "d' = d" using Cons.prems(2) by simp_all
    moreover have "import_row strict (clock' j) row d = Inl DataError"
      by (rule import_row_error_clock[OF Cons.prems(1) err])
    ultimately show ?thesis by simp
  next
    case found
    then have run: "import_rows strict clock (Suc i) rs c d = (res, d')"
      using Cons.prems(2) by simp
    note tab = import_rows_table[OF Cons.prems(1) run]
    have "roll_key row \<in> rolls d'" using found(1) tab by (auto simp: rolls_def)
    then obtain s' where "import_row strict (clock' j) row d' = Inr ((s', False), d')"
      using import_row_cases[of d' row strict "clock' j"] tab by auto
    then show ?thesis using Cons.IH[OF Cons.prems(1) run, of "Suc j" c'] by simp
  next
    case new
    let ?d1 = "d\<lparr>student_table := student_table d @ [s], student_seq := Suc (student_seq d)\<rparr>"
    have run: "import_rows strict clock (Suc i) rs (Suc c) ?d1 = (res, d')"
      using Cons.prems(2) new(3) by simp
    have dist: "distinct (map roll_number (student_table ?d1))"
      using Cons.prems(1) new(1,2) by (simp add: rolls_def)
    note tab = import_rows_table[OF dist run]
    have "roll_key row \<in> rolls ?d1" using new(2) by (simp add: rolls_def)
    then have "roll_key row \<in> rolls d'" using tab by (auto simp: rolls_def)
    then obtain s' where "import_row strict (clock' j) row d' = Inr ((s', False), d')"
      using import_row_cases[of d' row strict "clock' j"] tab by auto
    then show ?thesis using Cons.IH[OF dist run, of "Suc j" c'] by simp
  qed
qed

lemma import_rows_lenient:
  assumes "distinct (map roll_number (student_table d))"
  shows "\<exists>n d'. import_rows False clock i rs c d = (Inr n, d')"
  using assms
proof (induction rs arbitrary: i c d)
  case Nil
  then show ?case by simp
next
  case (Cons row rs)
  from import_row_cases[OF Cons.prems(1), of row False "clock i"]
  consider (found) s where "roll_key row \<in> rolls d"
        "import_row False (clock i) row d = Inr ((s, False), d)"
    | (err) "roll_key row \<notin> rolls d" "import_row False (clock i) row d = Inl DataError"
    | (new) s where "roll_key row \<notin> rolls d" "roll_number s = roll_key row"
        "import_row False (clock i) row d
          = Inr ((s, True), d\<lparr>student_table := student_table d @ [s],
                              student_seq := Suc (student_seq d)\<rparr>)"
    by blast
  then show ?case
  proof cases
    case found
    then show ?thesis using Cons.IH[OF Cons.prems(1)] by simp
  next
    case err
    then show ?thesis
      using student_get_or_create_new[OF err(1), of False
        "strip (row ''Student Name'')" "strip (row ''Course Name'')" "clock i"]
      by (simp add: import_row_def roll_key_def)
  next
    case new
    let ?d1 = "d\<lparr>student_table := student_table d @ [s], student_seq := Suc (student_seq d)\<rparr>"
    have dist: "distinct (map roll_number (student_table ?d1))"
      using Cons.prems(1) new(1,2) by (simp add: rolls_def)
    show ?thesis using Cons.IH[OF dist] new(3) by simp
  qed
qed

lemmas import_defs = import_students_def read_upload_def file_extension_def lower_char_def
  required_columns_def import_row_def student_get_or_create_def strip_def is_space_def
  roll_key_def rolls_def jane_row_def jane_file_def other_row_def other_file_def short_file_def
  db_jane_def Let_def

text \<open>
  Claim C8. For every upload in a supported format whose column set lacks one of
  Student Name, Roll Number and Course Name, the import answers with the missing-columns
  error, and the database is unchanged: the check comes before the loop over the rows,
  so no student is created.
\<close>

theorem import_missing_columns:
  assumes "file_name f \<noteq> []" and "read_upload f = Some (Inr df)"
    and "\<exists>col \<in> set required_columns. col \<notin> set (df_columns df)"
  shows "import_students strict clock POST (Some f) d = (Redirect_import_students Missing_columns, d)"
proof -
  have "\<not> list_all (\<lambda>col. col \<in> set (df_columns df)) required_columns"
    using assms(3) by (simp add: list_all_iff)
  then show ?thesis using assms(1,2) by (simp add: import_students_def)
qed

text \<open>A sheet without the course column is rejected although it has a row.\<close>

theorem import_missing_columns_witness:
  "file_name short_file \<noteq> []
   \<and> read_upload short_file = Some (Inr \<lparr>df_columns = [''Student Name'', ''Roll Number''], df_rows = [jane_row]\<rparr>)
   \<and> ''Course Name'' \<notin> set [''Student Name'', ''Roll Number'']
   \<and> import_students True (\<lambda>i. noon) POST (Some short_file) db_roster
       = (Redirect_import_students Missing_columns, db_roster)"
proof -
  let ?df = "\<lparr>df_columns = [''Student Name'', ''Roll Number''], df_rows = [jane_row]\<rparr>"
  have h1: "file_name short_file \<noteq> []" by (simp add: short_file_def)
  have h2: "read_upload short_file = Some (Inr ?df)"
    by (simp add: read_upload_def file_extension_def lower_char_def short_file_def)
  have h3: "\<exists>col \<in> set required_columns. col \<notin> set (df_columns ?df)"
    by (simp add: required_columns_def)
  show ?thesis
    using import_missing_columns[OF h1 h2 h3, of True "\<lambda>i. noon" db_roster] h1 h2 by simp
qed

lemma import_students_posted:
  assumes "file_name f \<noteq> []" and "read_upload f = Some (Inr df)"
    and "list_all (\<lambda>col. col \<in> set (df_columns df)) required_columns"
  shows "import_students strict clock POST (Some f) d
       = (case import_rows strict clock 0 (df_rows df) 0 d of
            (Inl e, d') \<Rightarrow> (Redirect_import_students (Import_failed e), d')
          | (Inr n, d') \<Rightarrow> (Redirect_attendance_list n, d'))"
  using assms by (simp add: import_students_def)

lemma import_students_not_rows:
  assumes "\<not> (\<exists>df. file_name f \<noteq> [] \<and> read_upload f = Some (Inr df)
               \<and> list_all (\<lambda>col. col \<in> set (df_columns df)) required_columns)"
  shows "snd (import_students strict clock m (Some f) d) = d
       \<and> (\<forall>n. fst (import_students strict clock m (Some f) d) \<noteq> Redirect_attendance_list n)
       \<and> fst (import_students strict clock' m (Some f) d') = fst (import_students strict clock m (Some f) d)"
proof (cases "read_upload f")
  case None
  then show ?thesis by (simp add: import_students_def)
next
  case (Some r)
  show ?thesis
  proof (cases r)
    case (Inl e)
    then show ?thesis using Some by (simp add: import_students_def)
  next
    case (Inr df)
    then have "file_name f = [] \<or> \<not> list_all (\<lambda>col. col \<in> set (df_columns df)) required_columns"
      using Some assms by blast
    then show ?thesis using Some Inr by (auto simp: import_students_def)
  qed
qed

text \<open>
  Claim C7 (as amended). On a roster with unique roll numbers, importing the same file
  twice changes nothing the second time: the database after the second import is the
  database after the first, and where the first import reports a count the second
  reports 0 (an import that fails, fails again the same way). The count of the first
  import is the number of distinct stripped roll numbers of the file that are not on the
  roster yet, which is the number of distinct stripped roll numbers of the file when none
  of them is. The students already on the roster stay as they are, name and course
  included: the Student table only grows at its end, and the Absence table is untouched.
\<close>

theorem import_idempotent:
  assumes "distinct (map roll_number (student_table d))"
    and "import_students strict clock POST (Some f) d = (r1, d1)"
    and "import_students strict clock' POST (Some f) d1 = (r2, d2)"
  shows "d2 = d1
       \<and> r2 = (case r1 of Redirect_attendance_list n \<Rightarrow> Redirect_attendance_list 0 | r \<Rightarrow> r)
       \<and> (\<forall>n. r1 = Redirect_attendance_list n \<longrightarrow>
            (\<exists>df. read_upload f = Some (Inr df)
               \<and> n = card (set (map roll_key (df_rows df)) - rolls d)
               \<and> (set (map roll_key (df_rows df)) \<inter> rolls d = {} \<longrightarrow>
                    n = card (set (map roll_key (df_rows df))))
               \<and> rolls d1 = rolls d \<union> set (map roll_key (df_rows df))
               \<and> length (student_table d1) = length (student_table d) + n))
       \<and> (\<exists>new. student_table d1 = student_table d @ new)
       \<and> distinct (map roll_number (student_table d1))
       \<and> absence_table d1 = absence_table d"
proof (cases "\<exists>df. file_name f \<noteq> [] \<and> read_upload f = Some (Inr df)
               \<and> list_all (\<lambda>col. col \<in> set (df_columns df)) required_columns")
  case False
  note a = import_students_not_rows[OF False, of strict clock POST d clock' d1]
  have d1: "d1 = d"
    using a assms(2) by (metis snd_conv)
  have r1: "\<forall>n. r1 \<noteq> Redirect_attendance_list n"
    using a assms(2) by (metis fst_conv)
  have "r2 = r1"
    using a assms(2,3) by (metis fst_conv)
  moreover have "d2 = d1"
    using import_students_not_rows[OF False, of strict clock' POST d1 clock d] assms(3)
    by (metis snd_conv)
  moreover have "(case r1 of Redirect_attendance_list n \<Rightarrow> Redirect_attendance_list 0 | r \<Rightarrow> r) = r1"
    using r1 by (cases r1) auto
  ultimately show ?thesis using d1 r1 assms(1) by simp
next
  case True
  then obtain df where f: "file_name f \<noteq> []" "read_upload f = Some (Inr df)"
      "list_all (\<lambda>col. col \<in> set (df_columns df)) required_columns"
    by blast
  obtain res where run1: "import_rows strict clock 0 (df_rows df) 0 d = (res, d1)"
      and r1: "r1 = (case res of Inl e \<Rightarrow> Redirect_import_students (Import_failed e)
                              | Inr n \<Rightarrow> Redirect_attendance_list n)"
    using assms(2) unfolding import_students_posted[OF f]
    by (cases "import_rows strict clock 0 (df_rows df) 0 d")
       (auto split: sum.splits)
  note tab = import_rows_table[OF assms(1) run1]
  note again = import_rows_again[OF assms(1) run1, of clock' 0 0]
  have second: "d2 = d1 \<and> r2 = (case res of Inl e \<Rightarrow> Redirect_import_students (Import_failed e)
                              | Inr n \<Rightarrow> Redirect_attendance_list 0)"
    using assms(3) unfolding import_students_posted[OF f] again
    by (cases res) auto
  have r2: "r2 = (case r1 of Redirect_attendance_list n \<Rightarrow> Redirect_attendance_list 0 | r \<Rightarrow> r)"
    using second r1 by (cases res) auto
  have count: "\<exists>df. read_upload f = Some (Inr df)
               \<and> n = card (set (map roll_key (df_rows df)) - rolls d)
               \<and> (set (map roll_key (df_rows df)) \<inter> rolls d = {} \<longrightarrow>
                    n = card (set (map roll_key (df_rows df))))
               \<and> rolls d1 = rolls d \<union> set (map roll_key (df_rows df))
               \<and> length (student_table d1) = length (student_table d) + n"
    if "r1 = Redirect_attendance_list n" for n
  proof -
    have "res = Inr n" using that r1 by (cases res) auto
    then have "import_rows strict clock 0 (df_rows df) 0 d = (Inr n, d1)" using run1 by simp
    from import_rows_count[OF assms(1) this]
    have c: "n = card (set (map roll_key (df_rows df)) - rolls d)"
        "rolls d1 = rolls d \<union> set (map roll_key (df_rows df))"
        "length (student_table d1) = length (student_table d) + n"
      by simp_all
    have "n = card (set (map roll_key (df_rows df)))"
      if "set (map roll_key (df_rows df)) \<inter> rolls d = {}"
      using c(1) that by (simp only: Diff_triv)
    then show ?thesis using f(2) c by blast
  qed
  from second r2 count tab show ?thesis by blast
qed

lemma jane_import:
  "import_students True (\<lambda>i. noon) POST (Some jane_file) db_roster = (Redirect_attendance_list 1, db_jane)"
  by (simp add: import_defs example_defs)

lemma jane_import_again:
  "import_students True (\<lambda>i. morning) POST (Some jane_file) db_jane = (Redirect_attendance_list 0, db_jane)"
  by (simp add: import_defs example_defs)

text \<open>
  The scenario of the specification: the row for R1 twice in one file creates one
  student, and importing the file again creates none.
\<close>

theorem import_idempotent_witness:
  "distinct (map roll_number (student_table db_roster))
   \<and> import_students True (\<lambda>i. noon) POST (Some jane_file) db_roster = (Redirect_attendance_list 1, db_jane)
   \<and> import_students True (\<lambda>i. morning) POST (Some jane_file) db_jane = (Redirect_attendance_list 0, db_jane)
   \<and> length (student_table db_jane) = length (student_table db_roster) + 1"
proof -
  have h1: "distinct (map roll_number (student_table db_roster))" by (simp add: example_defs)
  show ?thesis
    using import_idempotent[OF h1 jane_import jane_import_again] h1 jane_import jane_import_again
    by auto
qed

text \<open>
  The claim as stated equates the count of the first import with the number of distinct
  roll numbers in the file. A file imported for the first time whose single roll number
  is already on the roster reports 0, not 1; student A keeps name and course.
\<close>

theorem import_idempotent_counterexample:
  "import_students True (\<lambda>i. noon) POST (Some other_file) db_roster = (Redirect_attendance_list 0, db_roster)
   \<and> as_csv other_file = Inr \<lparr>df_columns = [''Student Name'', ''Roll Number'', ''Course Name''], df_rows = [other_row]\<rparr>
   \<and> card (set (map (\<lambda>row. row ''Roll Number'') [other_row])) = 1"
  by (simp add: import_defs example_defs)

lemma import_students_lenient:
  assumes "distinct (map roll_number (student_table d))"
    and "file_name f \<noteq> []" and "read_upload f = Some (Inr df)"
    and "list_all (\<lambda>col. col \<in> set (df_columns df)) required_columns"
  shows "\<exists>n d'. import_students False clock POST (Some f) d = (Redirect_attendance_list n, d')"
proof -
  obtain n d' where "import_rows False clock 0 (df_rows df) 0 d = (Inr n, d')"
    using import_rows_lenient[OF assms(1)] by blast
  then show ?thesis unfolding import_students_posted[OF assms(2,3,4)] by simp
qed

end
